theory Spec2Isabelle
  imports Complex_Main
begin

section \<open>Python values, types and exceptions\<close>

text \<open>
  The exceptions the modelled code can raise. Messages are not modelled: the claims are
  about the class of the exception and about the state it leaves behind.
\<close>

datatype pyerr = TypeError | ValueError | KeyError | IndexError | AttributeError

text \<open>
  The dynamically typed values the public functions can be called with and return.
  A Python float is modelled by the real number it denotes (rounding, infinities and NaN
  are outside the model); Python's \<open>bool\<close> is a subclass of \<open>int\<close>.
\<close>

datatype pyval =
    PNone
  | PBool bool
  | PInt int
  | PFloat real
  | PStr string
  | PList "pyval list"
  | PTuple "pyval list"
  | PDict "(string \<times> pyval) list"

datatype pytype =
    T_int | T_float | T_complex | T_bool | T_str | T_object
  | T_NoneType | T_list | T_tuple | T_dict
  | NP_integer | NP_floating | NP_complexfloating | NP_bool | NP_str | NP_object

fun type_of :: "pyval \<Rightarrow> pytype" where
  "type_of PNone = T_NoneType"
| "type_of (PBool _) = T_bool"
| "type_of (PInt _) = T_int"
| "type_of (PFloat _) = T_float"
| "type_of (PStr _) = T_str"
| "type_of (PList _) = T_list"
| "type_of (PTuple _) = T_tuple"
| "type_of (PDict _) = T_dict"

definition issubclass :: "pytype \<Rightarrow> pytype \<Rightarrow> bool" where
  \<comment> \<open>the class hierarchy of the built-in value types: everything is an \<open>object\<close>,
      a \<open>bool\<close> is an \<open>int\<close>\<close>
  "issubclass c t = (c = t \<or> t = T_object \<or> (c = T_bool \<and> t = T_int))"

definition isinstance :: "pyval \<Rightarrow> pytype \<Rightarrow> bool" where
  "isinstance obj t = issubclass (type_of obj) t"

fun truthy :: "pyval \<Rightarrow> bool" where
  "truthy PNone = False"
| "truthy (PBool b) = b"
| "truthy (PInt i) = (i \<noteq> 0)"
| "truthy (PFloat r) = (r \<noteq> 0)"
| "truthy (PStr s) = (s \<noteq> [])"
| "truthy (PList xs) = (xs \<noteq> [])"
| "truthy (PTuple xs) = (xs \<noteq> [])"
| "truthy (PDict kvs) = (kvs \<noteq> [])"

fun num_of :: "pyval \<Rightarrow> real option" where
  "num_of (PBool b) = Some (of_bool b)"
| "num_of (PInt i) = Some (of_int i)"
| "num_of (PFloat r) = Some r"
| "num_of _ = None"

fun int_val :: "pyval \<Rightarrow> int" where
  \<comment> \<open>the integer an \<open>int\<close> instance denotes; only applied after the \<open>int\<close> type check\<close>
  "int_val (PInt i) = i"
| "int_val (PBool b) = of_bool b"
| "int_val _ = 0"

fun real_val :: "pyval \<Rightarrow> real" where
  \<comment> \<open>the number a numeric value denotes; only applied after a numeric type check\<close>
  "real_val (PFloat r) = r"
| "real_val (PInt i) = of_int i"
| "real_val (PBool b) = of_bool b"
| "real_val _ = 0"

definition py_lt :: "pyval \<Rightarrow> pyval \<Rightarrow> pyerr + bool" where
  \<comment> \<open>\<open>a < b\<close> as \<open>_checkRange\<close> uses it: one side is always numeric there, and a number
      compared with a non-number raises TypeError\<close>
  "py_lt a b = (case (num_of a, num_of b) of
                  (Some x, Some y) \<Rightarrow> Inr (x < y)
                | _ \<Rightarrow> Inl TypeError)"

definition py_le :: "pyval \<Rightarrow> pyval \<Rightarrow> pyerr + bool" where
  "py_le a b = (case (num_of a, num_of b) of
                  (Some x, Some y) \<Rightarrow> Inr (x \<le> y)
                | _ \<Rightarrow> Inl TypeError)"

fun first_failure :: "(pyerr + unit) list \<Rightarrow> pyerr + unit" where
  \<comment> \<open>a sequence of checks, each of which may raise: the first exception wins\<close>
  "first_failure [] = Inr ()"
| "first_failure (c # cs) = (case c of Inl e \<Rightarrow> Inl e | Inr _ \<Rightarrow> first_failure cs)"

section \<open>utils/_error_checks.py\<close>

fun type_map :: "pytype \<Rightarrow> pytype option" where
  "type_map NP_integer = Some T_int"
| "type_map NP_floating = Some T_float"
| "type_map NP_complexfloating = Some T_complex"
| "type_map NP_bool = Some T_bool"
| "type_map NP_str = Some T_str"
| "type_map NP_object = Some T_object"
| "type_map T_float = Some T_int"
| "type_map T_int = Some T_int"
| "type_map _ = None"

definition checkTypeMap :: "pyval \<Rightarrow> pytype \<Rightarrow> pyerr + bool" where
  \<comment> \<open>returns \<open>bad_type\<close>; the lookup \<open>type_map[type_]\<close> raises KeyError when only
      \<open>type(obj)\<close> is a key of the table\<close>
  "checkTypeMap obj type' =
     (if type' \<in> dom type_map \<or> type_of obj \<in> dom type_map then
        (case type_map type' of
           None \<Rightarrow> Inl KeyError
         | Some t \<Rightarrow> Inr (\<not> (isinstance obj type' \<or> isinstance obj t)))
      else Inr (\<not> isinstance obj type'))"

datatype type_arg = Single pytype | Union "pytype list"

fun union_good :: "pyval \<Rightarrow> pytype list \<Rightarrow> bool \<Rightarrow> pyerr + bool" where
  \<comment> \<open>the loop over \<open>type_.__args__\<close>, accumulating \<open>good_type\<close>\<close>
  "union_good obj [] good_type = Inr good_type"
| "union_good obj (t # ts) good_type =
     (case checkTypeMap obj t of
        Inl e \<Rightarrow> Inl e
      | Inr bad \<Rightarrow> union_good obj ts (good_type \<or> \<not> bad))"

fun checkType :: "pyval \<Rightarrow> type_arg \<Rightarrow> pyerr + unit" where
  "checkType obj (Union ts) =
     (case union_good obj ts False of
        Inl e \<Rightarrow> Inl e
      | Inr good_type \<Rightarrow> if \<not> good_type then Inl TypeError else Inr ())"
| "checkType obj (Single t) =
     (case checkTypeMap obj t of
        Inl e \<Rightarrow> Inl e
      | Inr bad_type \<Rightarrow> if bad_type then Inl TypeError else Inr ())"

definition checkRange :: "pyval \<Rightarrow> pyval \<Rightarrow> pyval \<Rightarrow> bool \<Rightarrow> bool \<Rightarrow> pyerr + unit" where
  \<comment> \<open>\<open>_checkRange(obj, min_, max_, msg, include_min, include_max)\<close>; \<open>PNone\<close> is an
      absent bound\<close>
  "checkRange obj min' max' include_min include_max =
     first_failure
       [ if min' \<noteq> PNone then checkType obj (Union [T_int, T_float]) else Inr (),
         if max' \<noteq> PNone then checkType obj (Union [T_int, T_float]) else Inr (),
         checkType (PBool include_min) (Single T_bool),
         checkType (PBool include_max) (Single T_bool),
         if min' \<noteq> PNone then
           (case (if include_min then py_lt obj min' else py_le obj min') of
              Inl e \<Rightarrow> Inl e
            | Inr out \<Rightarrow> if out then Inl ValueError else Inr ())
         else Inr (),
         if max' \<noteq> PNone then
           (case (if include_max then py_lt max' obj else py_le max' obj) of
              Inl e \<Rightarrow> Inl e
            | Inr out \<Rightarrow> if out then Inl ValueError else Inr ())
         else Inr () ]"

section \<open>generators/rng\_mt19937.py\<close>

text \<open>
  numpy is not part of the repository: its bit generator is a parameter of the model.
  \<open>MT19937 np s\<close> is \<open>MT19937(SeedSequence(s))\<close>, which may raise; \<open>jumped\<close> returns a new,
  jumped bit generator; \<open>next_double\<close> is one 53-bit draw of \<open>Generator.uniform\<close>, returning
  the value and the advanced state.
\<close>

record 'g numpy =
  MT19937 :: "int \<Rightarrow> pyerr + 'g"
  jumped :: "'g \<Rightarrow> 'g"
  next_double :: "'g \<Rightarrow> real \<times> 'g"

type_synonym 'g streams = "'g option list"

definition num_streams :: nat where
  "num_streams = 128"

definition numStreams :: int where
  "numStreams = int num_streams"

definition initial_streams :: "'g numpy \<Rightarrow> 'g streams" where
  \<comment> \<open>\<open>[None] * _num_streams\<close>, the table before any seeding; the argument only fixes
      the kind of bit generator the table will hold\<close>
  "initial_streams np = replicate num_streams None"

fun set_seed_loop :: "'g numpy \<Rightarrow> nat \<Rightarrow> nat \<Rightarrow> 'g \<Rightarrow> 'g streams \<Rightarrow> (pyerr + unit) \<times> 'g streams" where
  \<comment> \<open>\<open>set_seed_loop np k i bg st\<close>: the last \<open>k\<close> iterations of the loop, at index \<open>i\<close>\<close>
  "set_seed_loop np 0 i bit_generator st = (Inr (), st)"
| "set_seed_loop np (Suc k) i bit_generator st =
     (if i < length st
      then set_seed_loop np k (Suc i) (jumped np bit_generator) (st[i := Some bit_generator])
      else (Inl IndexError, st))"

definition rng_set_seed :: "'g numpy \<Rightarrow> int \<Rightarrow> int option \<Rightarrow> 'g streams \<Rightarrow> (pyerr + unit) \<times> 'g streams" where
  \<comment> \<open>\<open>os_entropy\<close> is what \<open>SeedSequence(None)\<close> reads from the operating system\<close>
  "rng_set_seed np os_entropy seed st =
     (case MT19937 np (case seed of None \<Rightarrow> os_entropy | Some s \<Rightarrow> s) of
        Inl e \<Rightarrow> (Inl e, st)
      | Inr bit_generator \<Rightarrow> set_seed_loop np num_streams 0 bit_generator st)"

definition py_index :: "nat \<Rightarrow> int \<Rightarrow> pyerr + nat" where
  \<comment> \<open>the position a Python list of length \<open>len\<close> reads at index \<open>i\<close>\<close>
  "py_index len i =
     (let j = (if i < 0 then int len + i else i)
      in if 0 \<le> j \<and> j < int len then Inr (nat j) else Inl IndexError)"

definition rng_uniform :: "'g numpy \<Rightarrow> real \<Rightarrow> real \<Rightarrow> int \<Rightarrow> 'g streams \<Rightarrow> (pyerr + real) \<times> 'g streams" where
  "rng_uniform np a b which_stream st =
     (case py_index (length st) which_stream of
        Inl e \<Rightarrow> (Inl e, st)
      | Inr k \<Rightarrow>
          (case st ! k of
             None \<Rightarrow> (Inl AttributeError, st)
           | Some g \<Rightarrow>
               (case next_double np g of
                  (d, g') \<Rightarrow> (Inr (a + (b - a) * d), st[k := Some g']))))"

section \<open>generators/generators.py\<close>

datatype 'a shape = Scalar 'a | Vector "'a list"

fun uniforms_loop :: "'g numpy \<Rightarrow> nat \<Rightarrow> int \<Rightarrow> bool \<Rightarrow> real list \<Rightarrow> 'g streams \<Rightarrow> (pyerr + real list) \<times> 'g streams" where
  \<comment> \<open>\<open>for _ in range(n)\<close> with the list \<open>u\<close> built so far\<close>
  "uniforms_loop np 0 stream antithetic u st = (Inr u, st)"
| "uniforms_loop np (Suc k) stream antithetic u st =
     (case rng_uniform np 0 1 stream st of
        (Inl e, st') \<Rightarrow> (Inl e, st')
      | (Inr u_val, st') \<Rightarrow>
          uniforms_loop np k stream antithetic
            (u @ [if antithetic then 1 - u_val else u_val]) st')"

definition generateUniforms :: "'g numpy \<Rightarrow> int \<Rightarrow> int \<Rightarrow> bool \<Rightarrow> 'g streams \<Rightarrow> (pyerr + real shape) \<times> 'g streams" where
  "generateUniforms np n stream antithetic st =
     (if n = 1 then
        (case rng_uniform np 0 1 stream st of
           (Inl e, st') \<Rightarrow> (Inl e, st')
         | (Inr u, st') \<Rightarrow> (Inr (Scalar (if antithetic then 1 - u else u)), st'))
      else
        (case uniforms_loop np (nat n) stream antithetic [] st of
           (Inl e, st') \<Rightarrow> (Inl e, st')
         | (Inr u, st') \<Rightarrow> (Inr (Vector u), st')))"

section \<open>generators/generators\_continuous.py and generators\_discrete.py\<close>

text \<open>
  scipy's quantile functions are not part of the repository either: \<open>uniform.ppf(q, loc,
  scale)\<close>, \<open>expon.ppf(q, scale)\<close>, \<open>binom.ppf(q, n, p)\<close> and \<open>norm.ppf(q, loc, scale)\<close>
  are parameters, applied to a scalar once and to a sequence elementwise.
\<close>

record scipy_stats =
  uniform_ppf :: "real \<Rightarrow> real \<Rightarrow> real \<Rightarrow> real"
  expon_ppf :: "real \<Rightarrow> real \<Rightarrow> real"
  binom_ppf :: "real \<Rightarrow> int \<Rightarrow> real \<Rightarrow> real"
  norm_ppf :: "real \<Rightarrow> real \<Rightarrow> real \<Rightarrow> real"

fun map_shape :: "('a \<Rightarrow> 'b) \<Rightarrow> 'a shape \<Rightarrow> 'b shape" where
  "map_shape f (Scalar v) = Scalar (f v)"
| "map_shape f (Vector vs) = Vector (map f vs)"

fun elements :: "'a shape \<Rightarrow> 'a list" where
  "elements (Scalar v) = [v]"
| "elements (Vector vs) = vs"

fun tolist :: "pyval shape \<Rightarrow> pyval" where
  "tolist (Scalar v) = v"
| "tolist (Vector vs) = PList vs"

definition astype_int :: "real \<Rightarrow> int" where
  \<comment> \<open>\<open>.astype('int')\<close>: truncation toward zero\<close>
  "astype_int r = (if 0 \<le> r then \<lfloor>r\<rfloor> else \<lceil>r\<rceil>)"

definition invert :: "'g numpy \<Rightarrow> (real \<Rightarrow> pyval) \<Rightarrow> pyval \<Rightarrow> pyval \<Rightarrow> pyval \<Rightarrow> pyval \<Rightarrow> 'g streams \<Rightarrow> (pyerr + pyval) \<times> 'g streams" where
  \<comment> \<open>the tail the four variate functions share: draw \<open>u\<close>, invert it with the quantile
      function \<open>q\<close>, return \<open>x\<close> or the dictionary of \<open>u\<close> and \<open>x\<close>\<close>
  "invert np q n stream antithetic as_dict st =
     (case generateUniforms np (int_val n) (int_val stream) (truthy antithetic) st of
        (Inl e, st') \<Rightarrow> (Inl e, st')
      | (Inr u, st') \<Rightarrow>
          (let x = tolist (map_shape q u)
           in (Inr (if truthy as_dict
                    then PDict [(''u'', tolist (map_shape PFloat u)), (''x'', x)]
                    else x),
               st')))"

definition vunif_type_checks :: "pyval \<Rightarrow> pyval \<Rightarrow> pyval \<Rightarrow> pyval \<Rightarrow> pyval \<Rightarrow> pyval \<Rightarrow> pyerr + unit" where
  "vunif_type_checks n min' max' stream antithetic as_dict =
     first_failure
       [ checkType n (Single T_int), checkType stream (Single T_int),
         checkType min' (Single T_float), checkType max' (Single T_float),
         checkType antithetic (Single T_bool), checkType as_dict (Single T_bool) ]"

definition vunif_range_checks :: "pyval \<Rightarrow> pyval \<Rightarrow> pyval \<Rightarrow> pyval \<Rightarrow> pyerr + unit" where
  "vunif_range_checks n min' max' stream =
     first_failure
       [ checkRange n (PInt 1) PNone True True,
         checkRange max' min' PNone True True,
         checkRange stream (PInt 0) (PInt (numStreams - 1)) True True ]"

definition vunif :: "'g numpy \<Rightarrow> scipy_stats \<Rightarrow> pyval \<Rightarrow> pyval \<Rightarrow> pyval \<Rightarrow> pyval \<Rightarrow> pyval \<Rightarrow> pyval \<Rightarrow> 'g streams \<Rightarrow> (pyerr + pyval) \<times> 'g streams" where
  "vunif np sp n min' max' stream antithetic as_dict st =
     (case first_failure [ vunif_type_checks n min' max' stream antithetic as_dict,
                           vunif_range_checks n min' max' stream ] of
        Inl e \<Rightarrow> (Inl e, st)
      | Inr _ \<Rightarrow>
          invert np (\<lambda>u. PFloat (uniform_ppf sp u (real_val min') (real_val max' - real_val min')))
            n stream antithetic as_dict st)"

definition vexp_type_checks :: "pyval \<Rightarrow> pyval \<Rightarrow> pyval \<Rightarrow> pyval \<Rightarrow> pyval \<Rightarrow> pyerr + unit" where
  "vexp_type_checks n rate stream antithetic as_dict =
     first_failure
       [ checkType n (Single T_int), checkType stream (Single T_int),
         checkType rate (Union [T_float, T_int]),
         checkType antithetic (Single T_bool), checkType as_dict (Single T_bool) ]"

definition vexp_range_checks :: "pyval \<Rightarrow> pyval \<Rightarrow> pyval \<Rightarrow> pyerr + unit" where
  "vexp_range_checks n rate stream =
     first_failure
       [ checkRange n (PInt 1) PNone True True,
         checkRange rate (PInt 0) PNone False True,
         checkRange stream (PInt 0) (PInt (numStreams - 1)) True True ]"

definition vexp :: "'g numpy \<Rightarrow> scipy_stats \<Rightarrow> pyval \<Rightarrow> pyval \<Rightarrow> pyval \<Rightarrow> pyval \<Rightarrow> pyval \<Rightarrow> 'g streams \<Rightarrow> (pyerr + pyval) \<times> 'g streams" where
  "vexp np sp n rate stream antithetic as_dict st =
     (case first_failure [ vexp_type_checks n rate stream antithetic as_dict,
                           vexp_range_checks n rate stream ] of
        Inl e \<Rightarrow> (Inl e, st)
      | Inr _ \<Rightarrow>
          invert np (\<lambda>u. PFloat (expon_ppf sp u (1 / real_val rate)))
            n stream antithetic as_dict st)"

definition vnorm_type_checks :: "pyval \<Rightarrow> pyval \<Rightarrow> pyval \<Rightarrow> pyval \<Rightarrow> pyval \<Rightarrow> pyval \<Rightarrow> pyerr + unit" where
  \<comment> \<open>the last loop runs over \<open>[antithetic, as_dict]\<close> and checks \<open>antithetic\<close> each time\<close>
  "vnorm_type_checks n mean sd stream antithetic as_dict =
     first_failure
       [ checkType n (Single T_int), checkType stream (Single T_int),
         checkType mean (Union [T_float, T_int]),
         checkType sd (Union [T_float, T_int]),
         checkType antithetic (Single T_bool), checkType antithetic (Single T_bool) ]"

definition vnorm_range_checks :: "pyval \<Rightarrow> pyval \<Rightarrow> pyval \<Rightarrow> pyerr + unit" where
  "vnorm_range_checks n sd stream =
     first_failure
       [ checkRange n (PInt 1) PNone True True,
         checkRange sd (PInt 0) PNone False True,
         checkRange stream (PInt 0) (PInt (numStreams - 1)) True True ]"

definition vnorm :: "'g numpy \<Rightarrow> scipy_stats \<Rightarrow> pyval \<Rightarrow> pyval \<Rightarrow> pyval \<Rightarrow> pyval \<Rightarrow> pyval \<Rightarrow> pyval \<Rightarrow> 'g streams \<Rightarrow> (pyerr + pyval) \<times> 'g streams" where
  "vnorm np sp n mean sd stream antithetic as_dict st =
     (case first_failure [ vnorm_type_checks n mean sd stream antithetic as_dict,
                           vnorm_range_checks n sd stream ] of
        Inl e \<Rightarrow> (Inl e, st)
      | Inr _ \<Rightarrow>
          invert np (\<lambda>u. PFloat (norm_ppf sp u (real_val mean) (real_val sd)))
            n stream antithetic as_dict st)"

definition vbinom_type_checks :: "pyval \<Rightarrow> pyval \<Rightarrow> pyval \<Rightarrow> pyval \<Rightarrow> pyval \<Rightarrow> pyval \<Rightarrow> pyerr + unit" where
  "vbinom_type_checks n size' prob stream antithetic as_dict =
     first_failure
       [ checkType n (Single T_int), checkType size' (Single T_int),
         checkType stream (Single T_int),
         checkType prob (Single T_float),
         checkType antithetic (Single T_bool), checkType as_dict (Single T_bool) ]"

definition vbinom_range_checks :: "pyval \<Rightarrow> pyval \<Rightarrow> pyval \<Rightarrow> pyval \<Rightarrow> pyerr + unit" where
  "vbinom_range_checks n size' prob stream =
     first_failure
       [ checkRange n (PInt 1) PNone True True,
         checkRange size' (PInt 0) PNone True True,
         checkRange prob (PInt 0) (PInt 1) False True,
         checkRange stream (PInt 0) (PInt (numStreams - 1)) True True ]"

definition vbinom :: "'g numpy \<Rightarrow> scipy_stats \<Rightarrow> pyval \<Rightarrow> pyval \<Rightarrow> pyval \<Rightarrow> pyval \<Rightarrow> pyval \<Rightarrow> pyval \<Rightarrow> 'g streams \<Rightarrow> (pyerr + pyval) \<times> 'g streams" where
  "vbinom np sp n size' prob stream antithetic as_dict st =
     (case first_failure [ vbinom_type_checks n size' prob stream antithetic as_dict,
                           vbinom_range_checks n size' prob stream ] of
        Inl e \<Rightarrow> (Inl e, st)
      | Inr _ \<Rightarrow>
          invert np (\<lambda>u. PInt (astype_int (binom_ppf sp u (int_val size') (real_val prob))))
            n stream antithetic as_dict st)"

section \<open>Notions used to state the properties\<close>

definition advance :: "'g numpy \<Rightarrow> 'g \<Rightarrow> 'g" where
  \<comment> \<open>the bit generator after one draw\<close>
  "advance np g = snd (next_double np g)"

fun draws :: "'g numpy \<Rightarrow> nat \<Rightarrow> 'g \<Rightarrow> real list" where
  \<comment> \<open>the next \<open>k\<close> doubles of a bit generator, in order\<close>
  "draws np 0 g = []"
| "draws np (Suc k) g = fst (next_double np g) # draws np k (advance np g)"

definition jump_table :: "'g numpy \<Rightarrow> 'g \<Rightarrow> 'g streams" where
  \<comment> \<open>the root bit generator followed by its successive jumps\<close>
  "jump_table np g0 = map (\<lambda>i. Some ((jumped np ^^ i) g0)) [0..<num_streams]"

definition counter_numpy :: "nat numpy" where
  \<comment> \<open>a small concrete bit generator, to run the model on: the state is a counter, a draw
      returns its residue modulo 8 as an eighth, a jump adds 1000, a negative seed is
      rejected\<close>
  "counter_numpy =
     \<lparr> MT19937 = (\<lambda>s. if s < 0 then Inl ValueError else Inr (nat s)),
       jumped = (\<lambda>g. g + 1000),
       next_double = (\<lambda>g. (real (g mod 8) / 8, Suc g)) \<rparr>"

definition seeded :: "'g numpy \<Rightarrow> int \<Rightarrow> int \<Rightarrow> ('g streams \<Rightarrow> (pyerr + 'a) \<times> 'g streams) \<Rightarrow> 'g streams \<Rightarrow> (pyerr + 'a) \<times> 'g streams" where
  \<comment> \<open>\<open>rng.set_seed(s)\<close> followed by a call that draws\<close>
  "seeded np os_entropy s call st =
     (case rng_set_seed np os_entropy (Some s) st of
        (Inl e, st') \<Rightarrow> (Inl e, st')
      | (Inr _, st') \<Rightarrow> call st')"

definition seeded_table :: "int \<Rightarrow> nat streams" where
  \<comment> \<open>the table of the concrete bit generator after \<open>rng.set_seed(s)\<close> on the initial table\<close>
  "seeded_table s = snd (rng_set_seed counter_numpy 0 (Some s) (initial_streams counter_numpy))"

definition sample_stats :: scipy_stats where
  \<comment> \<open>concrete quantile functions, to run the model on: the uniform quantile in closed
      form, and rational stand-ins that are monotone in \<open>q\<close> for the other three\<close>
  "sample_stats =
     \<lparr> uniform_ppf = (\<lambda>q loc scale. loc + scale * q),
       expon_ppf = (\<lambda>q scale. scale * q / (1 - q)),
       binom_ppf = (\<lambda>q n p. of_int n * q),
       norm_ppf = (\<lambda>q loc scale. loc + scale * (q - 1 / 2)) \<rparr>"

section \<open>The type checks\<close>

lemma checkType_int:
  "checkType v (Single T_int) = (case v of PInt _ \<Rightarrow> Inr () | PBool _ \<Rightarrow> Inr () | _ \<Rightarrow> Inl TypeError)"
  by (cases v) (simp_all add: checkTypeMap_def isinstance_def issubclass_def domIff)

lemma checkType_float:
  "checkType v (Single T_float) =
     (case v of PInt _ \<Rightarrow> Inr () | PBool _ \<Rightarrow> Inr () | PFloat _ \<Rightarrow> Inr () | _ \<Rightarrow> Inl TypeError)"
  by (cases v) (simp_all add: checkTypeMap_def isinstance_def issubclass_def domIff)

lemma checkType_float_int:
  "checkType v (Union [T_float, T_int]) =
     (case v of PInt _ \<Rightarrow> Inr () | PBool _ \<Rightarrow> Inr () | PFloat _ \<Rightarrow> Inr () | _ \<Rightarrow> Inl TypeError)"
  by (cases v) (simp_all add: checkTypeMap_def isinstance_def issubclass_def domIff)

lemma checkType_int_float:
  "checkType v (Union [T_int, T_float]) =
     (case v of PInt _ \<Rightarrow> Inr () | PBool _ \<Rightarrow> Inr () | PFloat _ \<Rightarrow> Inr () | _ \<Rightarrow> Inl TypeError)"
  by (cases v) (simp_all add: checkTypeMap_def isinstance_def issubclass_def domIff)

lemma checkType_bool:
  "checkType v (Single T_bool) =
     (case v of PBool _ \<Rightarrow> Inr () | PInt _ \<Rightarrow> Inl KeyError | PFloat _ \<Rightarrow> Inl KeyError | _ \<Rightarrow> Inl TypeError)"
  by (cases v) (simp_all add: checkTypeMap_def isinstance_def issubclass_def domIff)

declare checkType.simps [simp del]

lemma first_failure_Inr: "first_failure cs = Inr () \<longleftrightarrow> (\<forall>c \<in> set cs. c = Inr ())"
  by (induction cs) (auto split: sum.splits)

lemma checkType_int_num:
  "checkType v (Single T_int) = Inr () \<Longrightarrow> num_of v = Some (of_int (int_val v)) \<and> real_val v = of_int (int_val v)"
  by (cases v) (simp_all add: checkType_int)

lemma checkType_float_num:
  "checkType v (Single T_float) = Inr () \<Longrightarrow> num_of v = Some (real_val v)"
  by (cases v) (simp_all add: checkType_float)

lemma checkType_float_int_num:
  "checkType v (Union [T_float, T_int]) = Inr () \<Longrightarrow> num_of v = Some (real_val v)"
  by (cases v) (simp_all add: checkType_float_int)

lemma checkType_num: "num_of v = Some x \<Longrightarrow> checkType v (Union [T_int, T_float]) = Inr ()"
  by (cases v) (simp_all add: checkType_int_float)

lemmas type_checks_eval =
  vunif_type_checks_def vexp_type_checks_def vbinom_type_checks_def vnorm_type_checks_def
  checkType_int checkType_float checkType_float_int checkType_bool

section \<open>The range checks\<close>

lemma checkRange_lower:
  assumes "num_of obj = Some x" "num_of lo = Some l"
  shows "checkRange obj lo PNone imin imax =
           (if (if imin then x < l else x \<le> l) then Inl ValueError else Inr ())"
proof -
  have "lo \<noteq> PNone" using assms(2) by auto
  then show ?thesis
    using assms by (simp add: checkRange_def checkType_num checkType_bool py_lt_def py_le_def)
qed

lemma checkRange_both:
  assumes "num_of obj = Some x" "num_of lo = Some l" "num_of hi = Some h"
  shows "checkRange obj lo hi imin imax =
           (if (if imin then x < l else x \<le> l) then Inl ValueError
            else if (if imax then h < x else h \<le> x) then Inl ValueError else Inr ())"
proof -
  have "lo \<noteq> PNone" "hi \<noteq> PNone" using assms by auto
  then show ?thesis
    using assms by (simp add: checkRange_def checkType_num checkType_bool py_lt_def py_le_def)
qed

lemma vunif_range_checks_typed:
  assumes "vunif_type_checks n min' max' stream antithetic as_dict = Inr ()"
  shows "vunif_range_checks n min' max' stream =
           (if 1 \<le> int_val n \<and> real_val min' \<le> real_val max'
               \<and> 0 \<le> int_val stream \<and> int_val stream < numStreams
            then Inr () else Inl ValueError)"
proof -
  from assms[unfolded vunif_type_checks_def first_failure_Inr]
  have n: "num_of n = Some (of_int (int_val n))"
    and s: "num_of stream = Some (of_int (int_val stream))"
    and lo: "num_of min' = Some (real_val min')" and hi: "num_of max' = Some (real_val max')"
    by (simp_all add: checkType_int_num checkType_float_num)
  show ?thesis
    unfolding vunif_range_checks_def
    by (simp add: checkRange_lower[OF n, of "PInt 1"] checkRange_lower[OF hi lo]
                  checkRange_both[OF s, of "PInt 0" _ "PInt (numStreams - 1)"])
qed

lemma vexp_range_checks_typed:
  assumes "vexp_type_checks n rate stream antithetic as_dict = Inr ()"
  shows "vexp_range_checks n rate stream =
           (if 1 \<le> int_val n \<and> 0 < real_val rate
               \<and> 0 \<le> int_val stream \<and> int_val stream < numStreams
            then Inr () else Inl ValueError)"
proof -
  from assms[unfolded vexp_type_checks_def first_failure_Inr]
  have n: "num_of n = Some (of_int (int_val n))"
    and s: "num_of stream = Some (of_int (int_val stream))"
    and r: "num_of rate = Some (real_val rate)"
    by (simp_all add: checkType_int_num checkType_float_int_num)
  show ?thesis
    unfolding vexp_range_checks_def
    by (simp add: checkRange_lower[OF n, of "PInt 1"] checkRange_lower[OF r, of "PInt 0"]
                  checkRange_both[OF s, of "PInt 0" _ "PInt (numStreams - 1)"])
qed

lemma vnorm_range_checks_typed:
  assumes "vnorm_type_checks n mean sd stream antithetic as_dict = Inr ()"
  shows "vnorm_range_checks n sd stream =
           (if 1 \<le> int_val n \<and> 0 < real_val sd
               \<and> 0 \<le> int_val stream \<and> int_val stream < numStreams
            then Inr () else Inl ValueError)"
proof -
  from assms[unfolded vnorm_type_checks_def first_failure_Inr]
  have n: "num_of n = Some (of_int (int_val n))"
    and s: "num_of stream = Some (of_int (int_val stream))"
    and r: "num_of sd = Some (real_val sd)"
    by (simp_all add: checkType_int_num checkType_float_int_num)
  show ?thesis
    unfolding vnorm_range_checks_def
    by (simp add: checkRange_lower[OF n, of "PInt 1"] checkRange_lower[OF r, of "PInt 0"]
                  checkRange_both[OF s, of "PInt 0" _ "PInt (numStreams - 1)"])
qed

lemma vbinom_range_checks_typed:
  assumes "vbinom_type_checks n size' prob stream antithetic as_dict = Inr ()"
  shows "vbinom_range_checks n size' prob stream =
           (if 1 \<le> int_val n \<and> 0 \<le> int_val size' \<and> 0 < real_val prob \<and> real_val prob \<le> 1
               \<and> 0 \<le> int_val stream \<and> int_val stream < numStreams
            then Inr () else Inl ValueError)"
proof -
  from assms[unfolded vbinom_type_checks_def first_failure_Inr]
  have n: "num_of n = Some (of_int (int_val n))"
    and z: "num_of size' = Some (of_int (int_val size'))"
    and s: "num_of stream = Some (of_int (int_val stream))"
    and p: "num_of prob = Some (real_val prob)"
    by (simp_all add: checkType_int_num checkType_float_num)
  show ?thesis
    unfolding vbinom_range_checks_def
    by (simp add: checkRange_lower[OF n, of "PInt 1"] checkRange_lower[OF z, of "PInt 0"]
                  checkRange_both[OF p, of "PInt 0" _ "PInt 1"]
                  checkRange_both[OF s, of "PInt 0" _ "PInt (numStreams - 1)"])
qed

lemma vexp_checks_scenario:
  "vexp_type_checks (PInt 1) (PFloat 2) (PInt 0) (PBool False) (PBool False) = Inr ()"
  "vexp_range_checks (PInt 1) (PFloat 2) (PInt 0) = Inr ()"
  by (simp_all add: vexp_type_checks_def vexp_range_checks_def checkType_int checkType_float_int
        checkType_bool checkRange_lower[where x = 1 and l = 1] checkRange_lower[where x = 2 and l = 0]
        checkRange_both[where x = 0 and l = 0 and h = "of_int (numStreams - 1)"]
        numStreams_def num_streams_def)

section \<open>Seeding the stream table\<close>

lemma set_seed_loop_nth:
  "i + k \<le> length st \<Longrightarrow>
   \<exists>tbl. set_seed_loop np k i bg st = (Inr (), tbl) \<and> length tbl = length st \<and>
     (\<forall>j < length st. tbl ! j = (if i \<le> j \<and> j < i + k then Some ((jumped np ^^ (j - i)) bg) else st ! j))"
proof (induction k arbitrary: i bg st)
  case 0
  then show ?case by auto
next
  case (Suc k)
  from Suc.prems have lt: "i < length st" and le: "Suc i + k \<le> length (st[i := Some bg])" by simp_all
  from Suc.IH[OF le, of "jumped np bg"] obtain tbl where
    t: "set_seed_loop np k (Suc i) (jumped np bg) (st[i := Some bg]) = (Inr (), tbl)"
    and l: "length tbl = length st"
    and n: "\<forall>j < length st. tbl ! j = (if Suc i \<le> j \<and> j < Suc i + k then Some ((jumped np ^^ (j - Suc i)) (jumped np bg)) else (st[i := Some bg]) ! j)"
    by auto
  have "\<forall>j < length st. tbl ! j = (if i \<le> j \<and> j < i + Suc k then Some ((jumped np ^^ (j - i)) bg) else st ! j)"
  proof (intro allI impI)
    fix j assume j: "j < length st"
    show "tbl ! j = (if i \<le> j \<and> j < i + Suc k then Some ((jumped np ^^ (j - i)) bg) else st ! j)"
    proof (cases "j = i")
      case True
      then show ?thesis using n j lt by simp
    next
      case False
      have "Suc i \<le> j \<Longrightarrow> (jumped np ^^ (j - Suc i)) (jumped np bg) = (jumped np ^^ (j - i)) bg"
        by (metis Suc_diff_le Suc_le_lessD diff_Suc_Suc funpow_Suc_right o_apply)
      then show ?thesis using n j False by auto
    qed
  qed
  with t l lt show ?case by simp
qed

lemma rng_set_seed_table:
  assumes "length st = num_streams" "MT19937 np s = Inr g0"
  shows "rng_set_seed np e (Some s) st = (Inr (), jump_table np g0)"
proof -
  from set_seed_loop_nth[of 0 num_streams st np g0] assms obtain tbl where
    t: "set_seed_loop np num_streams 0 g0 st = (Inr (), tbl)" and l: "length tbl = num_streams"
    and n: "\<forall>j < num_streams. tbl ! j = Some ((jumped np ^^ j) g0)" by auto
  have "tbl = jump_table np g0"
    by (rule nth_equalityI) (simp_all add: jump_table_def l n)
  with t assms show ?thesis by (simp add: rng_set_seed_def)
qed

lemma length_jump_table: "length (jump_table np g) = num_streams"
  by (simp add: jump_table_def)

lemma jump_table_nth: "i < num_streams \<Longrightarrow> jump_table np g ! i = Some ((jumped np ^^ i) g)"
  by (simp add: jump_table_def)

lemma seeded_run:
  assumes "length st = num_streams" and "MT19937 np s = Inr g0"
  shows "seeded np e s call st = call (jump_table np g0)"
  using rng_set_seed_table[OF assms, of e] by (simp add: seeded_def)

section \<open>Drawing from a stream\<close>

lemma py_index_valid: "0 \<le> i \<Longrightarrow> i < int len \<Longrightarrow> py_index len i = Inr (nat i)"
  by (simp add: py_index_def)

lemma py_index_cases:
  "py_index len i =
     (if 0 \<le> i \<and> i < int len then Inr (nat i)
      else if - int len \<le> i \<and> i < 0 then Inr (nat (int len + i))
      else Inl IndexError)"
  by (auto simp: py_index_def Let_def)

lemma rng_uniform_valid:
  assumes "0 \<le> i" "i < int (length st)" "st ! nat i = Some g"
  shows "rng_uniform np a b i st =
           (Inr (a + (b - a) * fst (next_double np g)), st[nat i := Some (advance np g)])"
  using assms by (simp add: rng_uniform_def py_index_valid advance_def split: prod.split)

lemma uniforms_loop_valid:
  assumes "0 \<le> i" "i < int (length st)" "st ! nat i = Some g"
  shows "uniforms_loop np k i anti u st =
           (Inr (u @ map (\<lambda>d. if anti then 1 - d else d) (draws np k g)),
            st[nat i := Some ((advance np ^^ k) g)])"
  using assms
proof (induction k arbitrary: u st g)
  case 0
  then have "st[nat i := Some g] = st" by (intro list_update_id[of st "nat i", simplified 0(3)])
  then show ?case by simp
next
  case (Suc k)
  let ?st' = "st[nat i := Some (advance np g)]"
  have s: "rng_uniform np 0 1 i st = (Inr (fst (next_double np g)), ?st')"
    using rng_uniform_valid[OF Suc.prems, of np 0 1] by simp
  have l: "i < int (length ?st')" and n: "?st' ! nat i = Some (advance np g)"
    using Suc.prems by simp_all
  show ?case
    by (simp add: s Suc.IH[OF Suc.prems(1) l n] funpow_swap1)
qed

lemma generateUniforms_valid:
  assumes "0 \<le> i" "i < int (length st)" "st ! nat i = Some g" "1 \<le> n"
  shows "generateUniforms np n i anti st =
           (Inr (if n = 1 then Scalar (if anti then 1 - fst (next_double np g) else fst (next_double np g))
                 else Vector (map (\<lambda>d. if anti then 1 - d else d) (draws np (nat n) g))),
            st[nat i := Some ((advance np ^^ nat n) g)])"
  using assms
  by (simp add: generateUniforms_def rng_uniform_valid uniforms_loop_valid)

lemma length_draws: "length (draws np k g) = k"
  by (induction k arbitrary: g) simp_all

lemma draws_one: "draws np (Suc 0) g = [fst (next_double np g)]"
  by simp

lemma elements_generated:
  "1 \<le> n \<Longrightarrow>
   elements (if n = 1 then Scalar (f (fst (next_double np g))) else Vector (map f (draws np (nat n) g)))
     = map f (draws np (nat n) g)"
  by (auto simp: draws_one)

lemma draws_bounds:
  assumes "\<forall>g. 0 \<le> fst (next_double np g) \<and> fst (next_double np g) < 1"
  shows "\<forall>d \<in> set (draws np k g). 0 \<le> d \<and> d < 1"
  using assms by (induction k arbitrary: g) auto

lemma invert_valid:
  assumes "0 \<le> int_val stream" and "int_val stream < int (length st)"
    and "st ! nat (int_val stream) = Some g" and "1 \<le> int_val n"
  shows "invert np q n stream antithetic as_dict st =
           (let us = map (\<lambda>d. if truthy antithetic then 1 - d else d) (draws np (nat (int_val n)) g);
                u = (if int_val n = 1 then Scalar (hd us) else Vector us);
                x = tolist (map_shape q u)
            in (Inr (if truthy as_dict
                     then PDict [(''u'', tolist (map_shape PFloat u)), (''x'', x)]
                     else x),
                st[nat (int_val stream) := Some ((advance np ^^ nat (int_val n)) g)]))"
  using generateUniforms_valid[OF assms, of np "truthy antithetic"]
  by (simp add: invert_def Let_def)

lemma rng_uniform_errors:
  "fst (rng_uniform np a b i st) = Inl e \<Longrightarrow> e = IndexError \<or> e = AttributeError"
  by (auto simp: rng_uniform_def py_index_def Let_def split: sum.splits option.splits prod.splits if_splits)

lemma uniforms_loop_errors:
  "fst (uniforms_loop np k i anti u st) = Inl e \<Longrightarrow> e = IndexError \<or> e = AttributeError"
proof (induction k arbitrary: u st)
  case 0
  then show ?case by simp
next
  case (Suc k)
  show ?case
  proof (cases "rng_uniform np 0 1 i st")
    case (Pair r st')
    show ?thesis
    proof (cases r)
      case (Inl e')
      with Pair Suc.prems have "fst (rng_uniform np 0 1 i st) = Inl e" by simp
      then show ?thesis by (rule rng_uniform_errors)
    next
      case (Inr v)
      with Pair Suc.prems show ?thesis by (auto dest: Suc.IH)
    qed
  qed
qed

lemma generateUniforms_errors:
  "fst (generateUniforms np n i anti st) = Inl e \<Longrightarrow> e = IndexError \<or> e = AttributeError"
proof (cases "n = 1")
  case True
  assume a: "fst (generateUniforms np n i anti st) = Inl e"
  obtain r st' where p: "rng_uniform np 0 1 i st = (r, st')" by (cases "rng_uniform np 0 1 i st")
  with a True have "fst (rng_uniform np 0 1 i st) = Inl e"
    by (cases r) (simp_all add: generateUniforms_def)
  then show ?thesis by (rule rng_uniform_errors)
next
  case False
  assume a: "fst (generateUniforms np n i anti st) = Inl e"
  obtain r st' where p: "uniforms_loop np (nat n) i anti [] st = (r, st')"
    by (cases "uniforms_loop np (nat n) i anti [] st")
  with a False have "fst (uniforms_loop np (nat n) i anti [] st) = Inl e"
    by (cases r) (simp_all add: generateUniforms_def)
  then show ?thesis by (rule uniforms_loop_errors)
qed

lemma invert_errors:
  "fst (invert np q n stream antithetic as_dict st) = Inl e \<Longrightarrow> e = IndexError \<or> e = AttributeError"
proof -
  assume a: "fst (invert np q n stream antithetic as_dict st) = Inl e"
  obtain r st' where p: "generateUniforms np (int_val n) (int_val stream) (truthy antithetic) st = (r, st')"
    by (cases "generateUniforms np (int_val n) (int_val stream) (truthy antithetic) st")
  with a have "fst (generateUniforms np (int_val n) (int_val stream) (truthy antithetic) st) = Inl e"
    by (cases r) (simp_all add: invert_def Let_def)
  then show ?thesis by (rule generateUniforms_errors)
qed

section \<open>The concrete bit generator\<close>

lemma counter_jumps: "(jumped counter_numpy ^^ i) g = g + 1000 * i"
  by (induction i) (simp_all add: counter_numpy_def)

lemma seeded_table_eq: "0 \<le> s \<Longrightarrow> seeded_table s = jump_table counter_numpy (nat s)"
  unfolding seeded_table_def
  by (subst rng_set_seed_table[where ?g0.0 = "nat s"]) (simp_all add: initial_streams_def counter_numpy_def)

lemma seeded_table_nth:
  "0 \<le> s \<Longrightarrow> i < num_streams \<Longrightarrow> seeded_table s ! i = Some (nat s + 1000 * i)"
  by (simp add: seeded_table_eq jump_table_def counter_jumps)

lemma length_seeded_table: "0 \<le> s \<Longrightarrow> length (seeded_table s) = num_streams"
  by (simp add: seeded_table_eq jump_table_def)

lemma seeded_table_valid:
  "length (seeded_table 3) = num_streams" "seeded_table 3 ! nat 0 = Some 3"
  by (simp_all add: length_seeded_table seeded_table_nth num_streams_def)

lemma seeded_table_0: "length (seeded_table 0) = num_streams" "seeded_table 0 ! nat 0 = Some 0"
  by (simp_all add: length_seeded_table seeded_table_nth num_streams_def)

lemma counter_draws: "0 \<le> fst (next_double counter_numpy g) \<and> fst (next_double counter_numpy g) < 1"
  by (simp add: counter_numpy_def)

lemma seeded_table_first_draw:
  "generateUniforms counter_numpy 1 0 False (seeded_table 3)
     = (Inr (Scalar (3 / 8)), (seeded_table 3)[0 := Some 4])"
  using generateUniforms_valid[of 0 "seeded_table 3" 3 1 counter_numpy False] seeded_table_valid
  by (simp add: num_streams_def advance_def counter_numpy_def)

lemma counter_rejects_negative:
  "s < 0 \<Longrightarrow> rng_set_seed counter_numpy e (Some s) st = (Inl ValueError, st)"
  by (simp add: rng_set_seed_def counter_numpy_def)

lemma seeded_table_second_draw:
  "fst (generateUniforms counter_numpy 1 0 False ((seeded_table 3)[0 := Some 4])) = Inr (Scalar (1 / 2))"
  using generateUniforms_valid[of 0 "(seeded_table 3)[0 := Some 4]" 4 1 counter_numpy False]
    seeded_table_valid
  by (simp add: num_streams_def counter_numpy_def)

section \<open>Properties of the generators\<close>

text \<open>
  C1, as amended. Determinism of seeded generation, for the seeds numpy accepts: when
  the table has its \<open>num_streams\<close> entries and the root bit generator can be built from
  the integer seed \<open>s\<close> (numpy rejects a negative seed), then for every valid stream
  index \<open>i\<close> and count \<open>k \<ge> 1\<close>, \<open>set_seed(s)\<close> followed by drawing \<open>k\<close> uniforms
  from stream \<open>i\<close> returns \<open>k\<close> values, and doing the same again from the table the
  first run left returns the same values; and \<open>set_seed(s)\<close> followed by
  \<open>vexp(1, rate=2.0, stream=0)\<close>, done twice in succession, returns the same float both
  times (for every such seed, 42 among them).
\<close>

theorem seeded_generation_deterministic:
  assumes "length st = num_streams" and "MT19937 np s = Inr g0"
    and "0 \<le> i" and "i < numStreams" and "1 \<le> k"
  shows "(\<exists>u st1 st2.
            seeded np e s (generateUniforms np k i antithetic) st = (Inr u, st1)
          \<and> length (elements u) = nat k
          \<and> seeded np e' s (generateUniforms np k i antithetic) st1 = (Inr u, st2))
       \<and> (\<exists>x st1 st2.
            seeded np e s (vexp np sp (PInt 1) (PFloat 2) (PInt 0) (PBool False) (PBool False)) st
              = (Inr (PFloat x), st1)
          \<and> seeded np e' s (vexp np sp (PInt 1) (PFloat 2) (PInt 0) (PBool False) (PBool False)) st1
              = (Inr (PFloat x), st2))"
proof -
  let ?tbl = "jump_table np g0"
  have len: "length ?tbl = num_streams" by (rule length_jump_table)
  have i: "i < int (length ?tbl)" using assms(4) by (simp add: len numStreams_def)
  have entry: "?tbl ! nat i = Some ((jumped np ^^ nat i) g0)"
    using assms(3,4) by (simp add: jump_table_nth numStreams_def)
  let ?g = "(jumped np ^^ nat i) g0"
  let ?st1 = "?tbl[nat i := Some ((advance np ^^ nat k) ?g)]"
  from generateUniforms_valid[OF assms(3) i entry assms(5), of np antithetic]
  obtain u where gen: "generateUniforms np k i antithetic ?tbl = (Inr u, ?st1)"
    and u: "u = (if k = 1 then Scalar (if antithetic then 1 - fst (next_double np ?g) else fst (next_double np ?g))
                 else Vector (map (\<lambda>d. if antithetic then 1 - d else d) (draws np (nat k) ?g)))"
    by blast
  have ulen: "length (elements u) = nat k"
    using assms(5) by (auto simp: u length_draws)
  have len1: "length ?st1 = num_streams" by (simp add: len)
  have first: "seeded np e s (generateUniforms np k i antithetic) st = (Inr u, ?st1)"
    by (simp add: seeded_run[OF assms(1,2)] gen)
  have second: "seeded np e' s (generateUniforms np k i antithetic) ?st1 = (Inr u, ?st1)"
    by (simp add: seeded_run[OF len1 assms(2)] gen)
  have z: "(0::int) < int (length ?tbl)" by (simp add: len num_streams_def)
  have entry0: "?tbl ! nat 0 = Some g0" by (simp add: jump_table_nth num_streams_def)
  let ?x = "expon_ppf sp (fst (next_double np g0)) (1 / 2)"
  let ?st1' = "?tbl[0 := Some (advance np g0)]"
  have vexp_run: "vexp np sp (PInt 1) (PFloat 2) (PInt 0) (PBool False) (PBool False) ?tbl
                    = (Inr (PFloat ?x), ?st1')"
    using generateUniforms_valid[OF _ z entry0, of 1 np False]
    by (simp add: vexp_def vexp_checks_scenario invert_def)
  have len1': "length ?st1' = num_streams" by (simp add: len)
  have first': "seeded np e s (vexp np sp (PInt 1) (PFloat 2) (PInt 0) (PBool False) (PBool False)) st
                  = (Inr (PFloat ?x), ?st1')"
    by (simp add: seeded_run[OF assms(1,2)] vexp_run)
  have second': "seeded np e' s (vexp np sp (PInt 1) (PFloat 2) (PInt 0) (PBool False) (PBool False)) ?st1'
                  = (Inr (PFloat ?x), ?st1')"
    by (simp add: seeded_run[OF len1' assms(2)] vexp_run)
  from first ulen second first' second' show ?thesis by blast
qed

theorem seeded_generation_deterministic_witness:
  "length (initial_streams counter_numpy) = num_streams
   \<and> MT19937 counter_numpy 42 = Inr 42
   \<and> (0::int) \<le> 5 \<and> 5 < numStreams \<and> (1::int) \<le> 3
   \<and> (\<exists>u st1 st2.
          seeded counter_numpy 0 42 (generateUniforms counter_numpy 3 5 False) (initial_streams counter_numpy) = (Inr u, st1)
        \<and> length (elements u) = nat 3
        \<and> seeded counter_numpy 1 42 (generateUniforms counter_numpy 3 5 False) st1 = (Inr u, st2))
   \<and> (\<exists>x st1 st2.
          seeded counter_numpy 0 42
            (vexp counter_numpy sample_stats (PInt 1) (PFloat 2) (PInt 0) (PBool False) (PBool False)) (initial_streams counter_numpy)
            = (Inr (PFloat x), st1)
        \<and> seeded counter_numpy 1 42
            (vexp counter_numpy sample_stats (PInt 1) (PFloat 2) (PInt 0) (PBool False) (PBool False)) st1
            = (Inr (PFloat x), st2))"
proof -
  have l: "length (initial_streams counter_numpy) = num_streams" by (simp add: initial_streams_def)
  have m: "MT19937 counter_numpy 42 = Inr 42" by (simp add: counter_numpy_def)
  have h: "(0::int) \<le> 5" "5 < numStreams" "(1::int) \<le> 3"
    by (simp_all add: numStreams_def num_streams_def)
  from seeded_generation_deterministic[OF l m h, of 0 False 1 sample_stats] l m h
  show ?thesis by blast
qed

text \<open>
  C1, as stated for every integer seed, fails: the seed \<open>-1\<close> is rejected with
  ValueError and the table stays as it was, so two draws from stream 0, each after
  \<open>set_seed(-1)\<close>, continue the same stream and return different values.
\<close>

theorem negative_seed_not_deterministic_counterexample:
  "rng_set_seed counter_numpy 0 (Some (- 1)) (seeded_table 3) = (Inl ValueError, seeded_table 3)
   \<and> generateUniforms counter_numpy 1 0 False (seeded_table 3)
       = (Inr (Scalar (3 / 8)), (seeded_table 3)[0 := Some 4])
   \<and> rng_set_seed counter_numpy 0 (Some (- 1)) ((seeded_table 3)[0 := Some 4])
       = (Inl ValueError, (seeded_table 3)[0 := Some 4])
   \<and> fst (generateUniforms counter_numpy 1 0 False ((seeded_table 3)[0 := Some 4]))
       = Inr (Scalar (1 / 2))"
  by (simp add: counter_rejects_negative seeded_table_first_draw seeded_table_second_draw)

text \<open>
  C2, as amended. Stream-table construction by jump-ahead, for the seeds numpy accepts:
  when the table has its \<open>num_streams\<close> entries and the root bit generator can be built
  from the integer seed \<open>s\<close> (numpy rejects a negative seed), \<open>rng.set_seed(s)\<close>
  returns with a table of \<open>num_streams\<close> entries whose entry 0 is the root bit generator
  and whose entry \<open>i + 1\<close> is the jump of entry \<open>i\<close>; the result does not depend on
  the table before the call, so every entry is replaced and seeding again with \<open>s\<close>
  gives the same table.
\<close>

theorem set_seed_builds_jump_table:
  assumes "length st = num_streams" and "MT19937 np s = Inr g0"
  shows "\<exists>tbl. rng_set_seed np e (Some s) st = (Inr (), tbl)
           \<and> length tbl = num_streams
           \<and> tbl ! 0 = Some g0
           \<and> (\<forall>i. Suc i < num_streams \<longrightarrow>
                 (\<exists>g. tbl ! i = Some g \<and> tbl ! Suc i = Some (jumped np g)))
           \<and> (\<forall>st' e'. length st' = num_streams \<longrightarrow>
                 rng_set_seed np e' (Some s) st' = (Inr (), tbl))"
proof -
  let ?tbl = "jump_table np g0"
  have built: "rng_set_seed np e (Some s) st = (Inr (), ?tbl)"
    using assms by (rule rng_set_seed_table)
  have len: "length ?tbl = num_streams" by (rule length_jump_table)
  have root: "?tbl ! 0 = Some g0" by (simp add: jump_table_nth num_streams_def)
  have chain: "\<forall>i. Suc i < num_streams \<longrightarrow>
                 (\<exists>g. ?tbl ! i = Some g \<and> ?tbl ! Suc i = Some (jumped np g))"
    by (simp add: jump_table_nth)
  have replaced: "\<forall>st' e'. length st' = num_streams \<longrightarrow>
                 rng_set_seed np e' (Some s) st' = (Inr (), ?tbl)"
    using assms(2) by (simp add: rng_set_seed_table)
  from built len root chain replaced show ?thesis by blast
qed

theorem set_seed_builds_jump_table_witness:
  "length (initial_streams counter_numpy) = num_streams
   \<and> MT19937 counter_numpy 7 = Inr 7
   \<and> (\<exists>tbl. rng_set_seed counter_numpy 0 (Some 7) (initial_streams counter_numpy) = (Inr (), tbl)
           \<and> length tbl = num_streams
           \<and> tbl ! 0 = Some 7
           \<and> tbl ! 1 = Some 1007)"
proof -
  have l: "length (initial_streams counter_numpy) = num_streams" by (simp add: initial_streams_def)
  have m: "MT19937 counter_numpy 7 = Inr 7" by (simp add: counter_numpy_def)
  from set_seed_builds_jump_table[OF l m, of 0] obtain tbl where
    t: "rng_set_seed counter_numpy 0 (Some 7) (initial_streams counter_numpy) = (Inr (), tbl)"
    and n: "length tbl = num_streams" and z: "tbl ! 0 = Some 7"
    and j: "\<forall>i. Suc i < num_streams \<longrightarrow> (\<exists>g. tbl ! i = Some g \<and> tbl ! Suc i = Some (jumped counter_numpy g))"
    by blast
  from j[rule_format, of 0] z have "tbl ! 1 = Some 1007"
    by (simp add: num_streams_def counter_numpy_def)
  with l m t n z show ?thesis by blast
qed

text \<open>
  C2, as stated for every integer seed, fails: for the seed \<open>-1\<close> no root bit generator
  is built, \<open>rng.set_seed\<close> raises ValueError and no entry of the table is replaced.
\<close>

theorem negative_seed_replaces_nothing_counterexample:
  "rng_set_seed counter_numpy 0 (Some (- 1)) (seeded_table 7) = (Inl ValueError, seeded_table 7)
   \<and> seeded_table 7 ! 0 = Some 7"
  using seeded_table_nth[of 7 0]
  by (simp add: counter_rejects_negative num_streams_def)

text \<open>
  C3. Antithetic identity: from the same table, with a seeded entry at the valid stream
  index \<open>i\<close> and \<open>n \<ge> 1\<close>, \<open>_generateUniforms(n, i, True)\<close> returns, position by
  position, one minus what \<open>_generateUniforms(n, i, False)\<close> returns, in the same shape
  with \<open>n\<close> values; both calls leave the same table, in which entry \<open>i\<close> alone has
  advanced, by \<open>n\<close> draws.
\<close>

theorem antithetic_identity:
  assumes "length st = num_streams" and "0 \<le> i" and "i < numStreams"
    and "st ! nat i = Some g" and "1 \<le> n"
  shows "\<exists>u st'. generateUniforms np n i False st = (Inr u, st')
           \<and> generateUniforms np n i True st = (Inr (map_shape (\<lambda>v. 1 - v) u), st')
           \<and> length (elements u) = nat n
           \<and> (\<forall>k < nat n. elements (map_shape (\<lambda>v. 1 - v) u) ! k = 1 - elements u ! k)
           \<and> st' = st[nat i := Some ((advance np ^^ nat n) g)]"
proof -
  have i: "i < int (length st)" using assms(1,3) by (simp add: numStreams_def)
  let ?u = "if n = 1 then Scalar (fst (next_double np g)) else Vector (draws np (nat n) g)"
  let ?st' = "st[nat i := Some ((advance np ^^ nat n) g)]"
  have plain: "generateUniforms np n i False st = (Inr ?u, ?st')"
    using generateUniforms_valid[OF assms(2) i assms(4,5), of np False] by simp
  have anti: "generateUniforms np n i True st = (Inr (map_shape (\<lambda>v. 1 - v) ?u), ?st')"
    using generateUniforms_valid[OF assms(2) i assms(4,5), of np True] by simp
  have el: "elements ?u = draws np (nat n) g"
    using elements_generated[OF assms(5), of "\<lambda>v. v" np g] by simp
  have len: "length (elements ?u) = nat n" by (simp only: el length_draws)
  have el': "elements (map_shape (\<lambda>v. 1 - v) ?u) = map (\<lambda>v. 1 - v) (elements ?u)"
    by simp
  have kth: "\<forall>k < nat n. elements (map_shape (\<lambda>v. 1 - v) ?u) ! k = 1 - elements ?u ! k"
    by (simp only: el' el) (simp add: length_draws)
  from plain anti len kth show ?thesis by blast
qed

theorem antithetic_identity_witness:
  "length (seeded_table 3) = num_streams \<and> (0::int) \<le> 0 \<and> 0 < numStreams
   \<and> seeded_table 3 ! nat 0 = Some 3 \<and> (1::int) \<le> 2
   \<and> (\<exists>u st'. generateUniforms counter_numpy 2 0 False (seeded_table 3) = (Inr u, st')
           \<and> generateUniforms counter_numpy 2 0 True (seeded_table 3)
                = (Inr (map_shape (\<lambda>v. 1 - v) u), st')
           \<and> length (elements u) = nat 2
           \<and> u = Vector [3 / 8, 1 / 2])"
proof -
  have h: "(0::int) \<le> 0" "0 < numStreams" "(1::int) \<le> 2"
    by (simp_all add: numStreams_def num_streams_def)
  from antithetic_identity[OF seeded_table_valid(1) h(1,2) seeded_table_valid(2) h(3), of counter_numpy]
  obtain u st' where
    a: "generateUniforms counter_numpy 2 0 False (seeded_table 3) = (Inr u, st')"
    and b: "generateUniforms counter_numpy 2 0 True (seeded_table 3) = (Inr (map_shape (\<lambda>v. 1 - v) u), st')"
    and c: "length (elements u) = nat 2"
    by blast
  have "fst (generateUniforms counter_numpy 2 0 False (seeded_table 3)) = Inr (Vector [3 / 8, 1 / 2])"
    using generateUniforms_valid[of 0 "seeded_table 3" 3 2 counter_numpy False] seeded_table_valid
    by (simp add: num_streams_def numeral_2_eq_2 advance_def counter_numpy_def)
  with a have d: "u = Vector [3 / 8, 1 / 2]" by simp
  from seeded_table_valid h a b c d show ?thesis by blast
qed

text \<open>
  C4, at the call \<open>vunif(1, 2.0, 5.0, 0, False, True)\<close> on a seeded table: the result is
  the dictionary with the keys \<open>"u"\<close> and \<open>"x"\<close>, and both values are bare floats,
  not sequences of length 1.
\<close>

theorem vunif_as_dict_single_variate:
  "vunif counter_numpy sample_stats (PInt 1) (PFloat 2) (PFloat 5) (PInt 0) (PBool False) (PBool True)
     (seeded_table 3)
   = (Inr (PDict [(''u'', PFloat (3 / 8)), (''x'', PFloat (25 / 8))]), (seeded_table 3)[0 := Some 4])"
proof -
  have t: "vunif_type_checks (PInt 1) (PFloat 2) (PFloat 5) (PInt 0) (PBool False) (PBool True) = Inr ()"
    by (simp add: type_checks_eval)
  have r: "vunif_range_checks (PInt 1) (PFloat 2) (PFloat 5) (PInt 0) = Inr ()"
    using vunif_range_checks_typed[OF t] by (simp add: numStreams_def num_streams_def)
  show ?thesis
    by (simp add: vunif_def t r invert_def seeded_table_first_draw sample_stats_def)
qed

text \<open>
  C5. Range-error enforcement: when the arguments pass the type checks, \<open>vunif\<close>,
  \<open>vexp\<close>, \<open>vbinom\<close> and \<open>vnorm\<close> raise ValueError for \<open>n < 1\<close> (so for
  \<open>n = 0\<close>), for \<open>stream < 0\<close> (so for \<open>-1\<close>) and for \<open>stream \<ge> numStreams()\<close>,
  \<open>vexp\<close> also for \<open>rate \<le> 0\<close>, \<open>vbinom\<close> also for \<open>prob \<le> 0\<close> and for
  \<open>prob > 1\<close>, \<open>vnorm\<close> also for \<open>sd \<le> 0\<close>; in each case the stream table is
  returned as it was passed: no uniform is drawn.
\<close>

theorem range_errors_before_any_draw:
  "(vunif_type_checks n min' max' stream antithetic as_dict = Inr ()
      \<and> (int_val n < 1 \<or> int_val stream < 0 \<or> numStreams \<le> int_val stream)
    \<longrightarrow> vunif np sp n min' max' stream antithetic as_dict st = (Inl ValueError, st))
 \<and> (vexp_type_checks n rate stream antithetic as_dict = Inr ()
      \<and> (int_val n < 1 \<or> int_val stream < 0 \<or> numStreams \<le> int_val stream
           \<or> real_val rate \<le> 0)
    \<longrightarrow> vexp np sp n rate stream antithetic as_dict st = (Inl ValueError, st))
 \<and> (vbinom_type_checks n size' prob stream antithetic as_dict = Inr ()
      \<and> (int_val n < 1 \<or> int_val stream < 0 \<or> numStreams \<le> int_val stream
           \<or> real_val prob \<le> 0 \<or> 1 < real_val prob)
    \<longrightarrow> vbinom np sp n size' prob stream antithetic as_dict st = (Inl ValueError, st))
 \<and> (vnorm_type_checks n mean sd stream antithetic as_dict = Inr ()
      \<and> (int_val n < 1 \<or> int_val stream < 0 \<or> numStreams \<le> int_val stream
           \<or> real_val sd \<le> 0)
    \<longrightarrow> vnorm np sp n mean sd stream antithetic as_dict st = (Inl ValueError, st))"
proof (intro conjI impI)
  assume "vunif_type_checks n min' max' stream antithetic as_dict = Inr ()
      \<and> (int_val n < 1 \<or> int_val stream < 0 \<or> numStreams \<le> int_val stream)"
  then show "vunif np sp n min' max' stream antithetic as_dict st = (Inl ValueError, st)"
    by (auto simp: vunif_def vunif_range_checks_typed)
next
  assume "vexp_type_checks n rate stream antithetic as_dict = Inr ()
      \<and> (int_val n < 1 \<or> int_val stream < 0 \<or> numStreams \<le> int_val stream
           \<or> real_val rate \<le> 0)"
  then show "vexp np sp n rate stream antithetic as_dict st = (Inl ValueError, st)"
    by (auto simp: vexp_def vexp_range_checks_typed)
next
  assume "vbinom_type_checks n size' prob stream antithetic as_dict = Inr ()
      \<and> (int_val n < 1 \<or> int_val stream < 0 \<or> numStreams \<le> int_val stream
           \<or> real_val prob \<le> 0 \<or> 1 < real_val prob)"
  then show "vbinom np sp n size' prob stream antithetic as_dict st = (Inl ValueError, st)"
    by (auto simp: vbinom_def vbinom_range_checks_typed)
next
  assume "vnorm_type_checks n mean sd stream antithetic as_dict = Inr ()
      \<and> (int_val n < 1 \<or> int_val stream < 0 \<or> numStreams \<le> int_val stream
           \<or> real_val sd \<le> 0)"
  then show "vnorm np sp n mean sd stream antithetic as_dict st = (Inl ValueError, st)"
    by (auto simp: vnorm_def vnorm_range_checks_typed)
qed

theorem range_errors_before_any_draw_witness:
  "vunif_type_checks (PInt 0) (PFloat 0) (PFloat 1) (PInt 0) (PBool False) (PBool False) = Inr ()
   \<and> int_val (PInt 0) < 1
   \<and> vunif counter_numpy sample_stats (PInt 0) (PFloat 0) (PFloat 1) (PInt 0) (PBool False) (PBool False)
        (seeded_table 3) = (Inl ValueError, seeded_table 3)
   \<and> vexp_type_checks (PInt 1) (PFloat 0) (PInt 0) (PBool False) (PBool False) = Inr ()
   \<and> real_val (PFloat 0) \<le> 0
   \<and> vexp counter_numpy sample_stats (PInt 1) (PFloat 0) (PInt 0) (PBool False) (PBool False)
        (seeded_table 3) = (Inl ValueError, seeded_table 3)
   \<and> vbinom_type_checks (PInt 1) (PInt 10) (PFloat (3 / 2)) (PInt 128) (PBool False) (PBool False) = Inr ()
   \<and> 1 < real_val (PFloat (3 / 2))
   \<and> vbinom counter_numpy sample_stats (PInt 1) (PInt 10) (PFloat (3 / 2)) (PInt 128) (PBool False) (PBool False)
        (seeded_table 3) = (Inl ValueError, seeded_table 3)
   \<and> vnorm_type_checks (PInt 10) (PFloat (5 / 2)) (PInt 0) (PInt (- 1)) (PBool True) (PBool True) = Inr ()
   \<and> real_val (PInt 0) \<le> 0
   \<and> vnorm counter_numpy sample_stats (PInt 10) (PFloat (5 / 2)) (PInt 0) (PInt (- 1)) (PBool True) (PBool True)
        (seeded_table 3) = (Inl ValueError, seeded_table 3)"
proof -
  have t: "vunif_type_checks (PInt 0) (PFloat 0) (PFloat 1) (PInt 0) (PBool False) (PBool False) = Inr ()"
    "vexp_type_checks (PInt 1) (PFloat 0) (PInt 0) (PBool False) (PBool False) = Inr ()"
    "vbinom_type_checks (PInt 1) (PInt 10) (PFloat (3 / 2)) (PInt 128) (PBool False) (PBool False) = Inr ()"
    "vnorm_type_checks (PInt 10) (PFloat (5 / 2)) (PInt 0) (PInt (- 1)) (PBool True) (PBool True) = Inr ()"
    by (simp_all add: type_checks_eval)
  have r: "int_val (PInt 0) < 1" "real_val (PFloat 0) \<le> 0" "1 < real_val (PFloat (3 / 2))"
    "real_val (PInt 0) \<le> 0"
    by simp_all
  note inst = range_errors_before_any_draw[where np = counter_numpy and sp = sample_stats
      and st = "seeded_table 3"]
  have a: "vunif counter_numpy sample_stats (PInt 0) (PFloat 0) (PFloat 1) (PInt 0) (PBool False) (PBool False)
        (seeded_table 3) = (Inl ValueError, seeded_table 3)"
    using inst[where n = "PInt 0" and min' = "PFloat 0" and max' = "PFloat 1" and stream = "PInt 0"
        and antithetic = "PBool False" and as_dict = "PBool False"] t(1) r(1) by blast
  have b: "vexp counter_numpy sample_stats (PInt 1) (PFloat 0) (PInt 0) (PBool False) (PBool False)
        (seeded_table 3) = (Inl ValueError, seeded_table 3)"
    using inst[where n = "PInt 1" and rate = "PFloat 0" and stream = "PInt 0"
        and antithetic = "PBool False" and as_dict = "PBool False"] t(2) r(2) by blast
  have c: "vbinom counter_numpy sample_stats (PInt 1) (PInt 10) (PFloat (3 / 2)) (PInt 128) (PBool False) (PBool False)
        (seeded_table 3) = (Inl ValueError, seeded_table 3)"
    using inst[where n = "PInt 1" and size' = "PInt 10" and prob = "PFloat (3 / 2)" and stream = "PInt 128"
        and antithetic = "PBool False" and as_dict = "PBool False"] t(3) r(3) by blast
  have d: "vnorm counter_numpy sample_stats (PInt 10) (PFloat (5 / 2)) (PInt 0) (PInt (- 1)) (PBool True) (PBool True)
        (seeded_table 3) = (Inl ValueError, seeded_table 3)"
    using inst[where n = "PInt 10" and mean = "PFloat (5 / 2)" and sd = "PInt 0" and stream = "PInt (- 1)"
        and antithetic = "PBool True" and as_dict = "PBool True"] t(4) r(4) by blast
  from t r a b c d show ?thesis by blast
qed

text \<open>
  C6, at the call \<open>vnorm(1, 0.0, 1.0, 0, False, "yes")\<close> on a seeded table: \<open>as_dict\<close>
  is a string, no exception is raised, a uniform is drawn from stream 0 and the dictionary
  is returned; \<open>vunif\<close> raises TypeError for the same \<open>as_dict\<close>. For the integer 1 as
  \<open>antithetic\<close>, \<open>vunif\<close> raises KeyError, not TypeError.
\<close>

theorem vnorm_as_dict_unchecked:
  "vnorm counter_numpy sample_stats (PInt 1) (PFloat 0) (PFloat 1) (PInt 0) (PBool False) (PStr ''yes'')
     (seeded_table 3)
   = (Inr (PDict [(''u'', PFloat (3 / 8)), (''x'', PFloat (- 1 / 8))]), (seeded_table 3)[0 := Some 4])
   \<and> vunif counter_numpy sample_stats (PInt 1) (PFloat 0) (PFloat 1) (PInt 0) (PBool False) (PStr ''yes'')
     (seeded_table 3) = (Inl TypeError, seeded_table 3)
   \<and> vunif counter_numpy sample_stats (PInt 1) (PFloat 0) (PFloat 1) (PInt 0) (PInt 1) (PBool False)
     (seeded_table 3) = (Inl KeyError, seeded_table 3)"
proof -
  have t: "vnorm_type_checks (PInt 1) (PFloat 0) (PFloat 1) (PInt 0) (PBool False) (PStr ''yes'') = Inr ()"
    by (simp add: type_checks_eval)
  have r: "vnorm_range_checks (PInt 1) (PFloat 1) (PInt 0) = Inr ()"
    using vnorm_range_checks_typed[OF t] by (simp add: numStreams_def num_streams_def)
  have a: "vnorm counter_numpy sample_stats (PInt 1) (PFloat 0) (PFloat 1) (PInt 0) (PBool False) (PStr ''yes'')
     (seeded_table 3)
   = (Inr (PDict [(''u'', PFloat (3 / 8)), (''x'', PFloat (- 1 / 8))]), (seeded_table 3)[0 := Some 4])"
    by (simp add: vnorm_def t r invert_def seeded_table_first_draw sample_stats_def)
  have b: "vunif counter_numpy sample_stats (PInt 1) (PFloat 0) (PFloat 1) (PInt 0) (PBool False) (PStr ''yes'')
     (seeded_table 3) = (Inl TypeError, seeded_table 3)"
    by (simp add: vunif_def type_checks_eval)
  have c: "vunif counter_numpy sample_stats (PInt 1) (PFloat 0) (PFloat 1) (PInt 0) (PInt 1) (PBool False)
     (seeded_table 3) = (Inl KeyError, seeded_table 3)"
    by (simp add: vunif_def type_checks_eval)
  from a b c show ?thesis by blast
qed

text \<open>
  C7, as amended. On a table of \<open>num_streams\<close> entries, \<open>rng.uniform\<close> raises
  IndexError, leaving the table as it was, for every stream index that is at least
  \<open>numStreams()\<close> or below \<open>-numStreams()\<close>; for a negative index from
  \<open>-numStreams()\<close> to \<open>-1\<close> it behaves as for the index \<open>numStreams() + i\<close>, the
  entry counted from the end of the table.
\<close>

theorem uniform_index_outside_table:
  assumes "length st = num_streams"
  shows "(i < - numStreams \<or> numStreams \<le> i \<longrightarrow>
            rng_uniform np a b i st = (Inl IndexError, st))
       \<and> (- numStreams \<le> i \<and> i < 0 \<longrightarrow>
            rng_uniform np a b i st = rng_uniform np a b (numStreams + i) st)"
proof (intro conjI impI)
  assume "i < - numStreams \<or> numStreams \<le> i"
  then have "py_index (length st) i = Inl IndexError"
    using assms by (auto simp: py_index_cases numStreams_def)
  then show "rng_uniform np a b i st = (Inl IndexError, st)"
    by (simp add: rng_uniform_def)
next
  assume neg: "- numStreams \<le> i \<and> i < 0"
  then have "py_index (length st) i = Inr (nat (numStreams + i))"
    using assms by (auto simp: py_index_cases numStreams_def)
  moreover have "py_index (length st) (numStreams + i) = Inr (nat (numStreams + i))"
    using assms neg by (auto simp: py_index_cases numStreams_def)
  ultimately show "rng_uniform np a b i st = rng_uniform np a b (numStreams + i) st"
    by (simp add: rng_uniform_def)
qed

theorem uniform_index_outside_table_witness:
  "length (seeded_table 3) = num_streams
   \<and> numStreams \<le> 128
   \<and> rng_uniform counter_numpy 0 1 128 (seeded_table 3) = (Inl IndexError, seeded_table 3)
   \<and> - numStreams \<le> - 1 \<and> (- 1 :: int) < 0
   \<and> rng_uniform counter_numpy 0 1 (- 1) (seeded_table 3)
       = rng_uniform counter_numpy 0 1 (numStreams + - 1) (seeded_table 3)"
proof -
  have h: "numStreams \<le> 128" "- numStreams \<le> - 1" "(- 1 :: int) < 0"
    by (simp_all add: numStreams_def num_streams_def)
  from uniform_index_outside_table[OF seeded_table_valid(1), of 128 counter_numpy 0 1] h(1)
  have hi: "rng_uniform counter_numpy 0 1 128 (seeded_table 3) = (Inl IndexError, seeded_table 3)"
    by blast
  from uniform_index_outside_table[OF seeded_table_valid(1), of "- 1" counter_numpy 0 1] h(2,3)
  have lo: "rng_uniform counter_numpy 0 1 (- 1) (seeded_table 3)
              = rng_uniform counter_numpy 0 1 (numStreams + - 1) (seeded_table 3)"
    by blast
  from seeded_table_valid(1) h hi lo show ?thesis by blast
qed

text \<open>
  C7, as stated, fails: the index \<open>-1\<close> is outside \<open>[0, numStreams() - 1]\<close>, and
  \<open>rng.uniform\<close> returns a draw there, served by the last entry of the table.
\<close>

theorem uniform_negative_index_counterexample:
  "fst (rng_uniform counter_numpy 0 1 (- 1) (seeded_table 3)) = Inr (3 / 8)"
proof -
  have e: "seeded_table 3 ! 127 = Some 127003"
    using seeded_table_nth[of 3 127] by (simp add: num_streams_def)
  have "py_index (length (seeded_table 3)) (- 1) = Inr 127"
    by (simp add: py_index_cases seeded_table_valid(1) num_streams_def)
  then show ?thesis
    by (simp add: rng_uniform_def e counter_numpy_def)
qed

text \<open>
  C8, as amended. When every draw of the bit generator lies in \<open>[0,1)\<close>, every value
  \<open>_generateUniforms\<close> returns lies in \<open>[0,1)\<close> when \<open>antithetic\<close> is false, and in
  \<open>(0,1]\<close> when \<open>antithetic\<close> is true.
\<close>

theorem uniforms_in_unit_interval:
  assumes "\<forall>g. 0 \<le> fst (next_double np g) \<and> fst (next_double np g) < 1"
    and "length st = num_streams" and "0 \<le> s" and "s < numStreams"
    and "st ! nat s = Some g" and "1 \<le> n"
  shows "\<exists>u st'. generateUniforms np n s antithetic st = (Inr u, st')
           \<and> (\<forall>v \<in> set (elements u).
                 if antithetic then 0 < v \<and> v \<le> 1 else 0 \<le> v \<and> v < 1)"
proof -
  have i: "s < int (length st)" using assms(2,4) by (simp add: numStreams_def)
  let ?f = "\<lambda>d::real. if antithetic then 1 - d else d"
  let ?u = "if n = 1 then Scalar (?f (fst (next_double np g)))
            else Vector (map ?f (draws np (nat n) g))"
  have run: "generateUniforms np n s antithetic st
               = (Inr ?u, st[nat s := Some ((advance np ^^ nat n) g)])"
    using generateUniforms_valid[OF assms(3) i assms(5,6), of np antithetic]
    by (simp split: if_splits)
  have el: "elements ?u = map ?f (draws np (nat n) g)"
    by (rule elements_generated[OF assms(6)])
  have "\<forall>v \<in> set (elements ?u). if antithetic then 0 < v \<and> v \<le> 1 else 0 \<le> v \<and> v < 1"
    unfolding el using draws_bounds[OF assms(1), of "nat n" g] by auto
  with run show ?thesis by blast
qed

theorem uniforms_in_unit_interval_witness:
  "(\<forall>g. 0 \<le> fst (next_double counter_numpy g) \<and> fst (next_double counter_numpy g) < 1)
   \<and> length (seeded_table 3) = num_streams \<and> (0::int) \<le> 0 \<and> 0 < numStreams
   \<and> seeded_table 3 ! nat 0 = Some 3 \<and> (1::int) \<le> 2
   \<and> (\<exists>u st'. generateUniforms counter_numpy 2 0 True (seeded_table 3) = (Inr u, st')
           \<and> u = Vector [5 / 8, 1 / 2])"
proof -
  have h: "(0::int) \<le> 0" "0 < numStreams" "(1::int) \<le> 2"
    by (simp_all add: numStreams_def num_streams_def)
  have r: "\<forall>g. 0 \<le> fst (next_double counter_numpy g) \<and> fst (next_double counter_numpy g) < 1"
    using counter_draws by blast
  from uniforms_in_unit_interval[OF r seeded_table_valid(1) h(1,2) seeded_table_valid(2) h(3), of True]
  obtain u st' where
    a: "generateUniforms counter_numpy 2 0 True (seeded_table 3) = (Inr u, st')"
    by blast
  have "fst (generateUniforms counter_numpy 2 0 True (seeded_table 3)) = Inr (Vector [5 / 8, 1 / 2])"
    using generateUniforms_valid[of 0 "seeded_table 3" 3 2 counter_numpy True] seeded_table_valid
    by (simp add: num_streams_def numeral_2_eq_2 advance_def counter_numpy_def)
  with a have d: "u = Vector [5 / 8, 1 / 2]" by simp
  from r seeded_table_valid h a d show ?thesis by blast
qed

text \<open>
  C8, as stated, fails: with \<open>antithetic\<close> true a draw of \<open>0\<close> is returned as
  \<open>1 - 0 = 1\<close>, which is outside \<open>[0,1)\<close>. The concrete bit generator seeded with 0
  draws \<open>0\<close> first on stream 0.
\<close>

theorem antithetic_draw_of_zero_counterexample:
  "fst (generateUniforms counter_numpy 1 0 True (seeded_table 0)) = Inr (Scalar 1)"
  using generateUniforms_valid[of 0 "seeded_table 0" 0 1 counter_numpy True] seeded_table_0
  by (simp add: num_streams_def counter_numpy_def)

text \<open>
  C9. Frame property of generation: with a seeded entry at the valid stream index \<open>s\<close>
  and \<open>n \<ge> 1\<close>, \<open>_generateUniforms(n, s, antithetic)\<close> returns, the table keeps its
  length, entry \<open>s\<close> is the bit generator advanced by exactly \<open>n\<close> draws and every other
  entry is unchanged.
\<close>

theorem generation_frame:
  assumes "length st = num_streams" and "0 \<le> s" and "s < numStreams"
    and "st ! nat s = Some g" and "1 \<le> n"
  shows "\<exists>u st'. generateUniforms np n s antithetic st = (Inr u, st')
           \<and> length st' = length st
           \<and> st' ! nat s = Some ((advance np ^^ nat n) g)
           \<and> (\<forall>j < length st. j \<noteq> nat s \<longrightarrow> st' ! j = st ! j)"
proof -
  have i: "s < int (length st)" using assms(1,3) by (simp add: numStreams_def)
  let ?st' = "st[nat s := Some ((advance np ^^ nat n) g)]"
  from generateUniforms_valid[OF assms(2) i assms(4,5), of np antithetic]
  obtain u where run: "generateUniforms np n s antithetic st = (Inr u, ?st')" by blast
  have len: "length ?st' = length st" by simp
  have here: "?st' ! nat s = Some ((advance np ^^ nat n) g)" using i assms(2) by simp
  have others: "\<forall>j < length st. j \<noteq> nat s \<longrightarrow> ?st' ! j = st ! j" by simp
  from run len here others show ?thesis by blast
qed

theorem generation_frame_witness:
  "length (seeded_table 3) = num_streams \<and> (0::int) \<le> 0 \<and> 0 < numStreams
   \<and> seeded_table 3 ! nat 0 = Some 3 \<and> (1::int) \<le> 2
   \<and> (\<exists>u st'. generateUniforms counter_numpy 2 0 True (seeded_table 3) = (Inr u, st')
           \<and> length st' = length (seeded_table 3)
           \<and> st' ! nat 0 = Some 5
           \<and> st' ! 1 = seeded_table 3 ! 1)"
proof -
  have h: "(0::int) \<le> 0" "0 < numStreams" "(1::int) \<le> 2"
    by (simp_all add: numStreams_def num_streams_def)
  from generation_frame[OF seeded_table_valid(1) h(1,2) seeded_table_valid(2) h(3), of counter_numpy True]
  obtain u st' where
    a: "generateUniforms counter_numpy 2 0 True (seeded_table 3) = (Inr u, st')"
    and b: "length st' = length (seeded_table 3)"
    and c: "st' ! nat 0 = Some ((advance counter_numpy ^^ nat 2) 3)"
    and d: "\<forall>j < length (seeded_table 3). j \<noteq> nat 0 \<longrightarrow> st' ! j = seeded_table 3 ! j"
    by blast
  have c': "st' ! nat 0 = Some 5"
    using c by (simp add: numeral_2_eq_2 advance_def counter_numpy_def)
  have d': "st' ! 1 = seeded_table 3 ! 1"
    using d[rule_format, of 1] by (simp add: seeded_table_valid(1) num_streams_def)
  from seeded_table_valid h a b c' d' show ?thesis by blast
qed

text \<open>
  C10. An integer is accepted where a float is required: \<open>_checkType\<close> accepts every
  \<open>int\<close> for the type \<open>float\<close>; \<open>vunif\<close> with integer \<open>min_\<close> and \<open>max_\<close>, and
  \<open>vbinom\<close> with the integer \<open>prob\<close> 1, pass the type checks, the range checks then
  return or raise ValueError, and the call never raises TypeError.
\<close>

theorem int_accepted_where_float_required:
  "checkType (PInt i) (Single T_float) = Inr ()
   \<and> vunif_type_checks (PInt n) (PInt lo) (PInt hi) (PInt s) (PBool a) (PBool d) = Inr ()
   \<and> vunif_range_checks (PInt n) (PInt lo) (PInt hi) (PInt s)
       = (if 1 \<le> n \<and> lo \<le> hi \<and> 0 \<le> s \<and> s < numStreams then Inr () else Inl ValueError)
   \<and> fst (vunif np sp (PInt n) (PInt lo) (PInt hi) (PInt s) (PBool a) (PBool d) st) \<noteq> Inl TypeError
   \<and> vbinom_type_checks (PInt n) (PInt k) (PInt 1) (PInt s) (PBool a) (PBool d) = Inr ()
   \<and> vbinom_range_checks (PInt n) (PInt k) (PInt 1) (PInt s)
       = (if 1 \<le> n \<and> 0 \<le> k \<and> 0 \<le> s \<and> s < numStreams then Inr () else Inl ValueError)
   \<and> fst (vbinom np sp (PInt n) (PInt k) (PInt 1) (PInt s) (PBool a) (PBool d) st) \<noteq> Inl TypeError"
proof -
  have c: "checkType (PInt i) (Single T_float) = Inr ()" by (simp add: checkType_float)
  have ut: "vunif_type_checks (PInt n) (PInt lo) (PInt hi) (PInt s) (PBool a) (PBool d) = Inr ()"
    by (simp add: type_checks_eval)
  have ur: "vunif_range_checks (PInt n) (PInt lo) (PInt hi) (PInt s)
       = (if 1 \<le> n \<and> lo \<le> hi \<and> 0 \<le> s \<and> s < numStreams then Inr () else Inl ValueError)"
    using vunif_range_checks_typed[OF ut] by simp
  have u: "fst (vunif np sp (PInt n) (PInt lo) (PInt hi) (PInt s) (PBool a) (PBool d) st) \<noteq> Inl TypeError"
  proof (cases "1 \<le> n \<and> lo \<le> hi \<and> 0 \<le> s \<and> s < numStreams")
    case True
    then show ?thesis
      using invert_errors[of np _ "PInt n" "PInt s" "PBool a" "PBool d" st TypeError]
      by (auto simp: vunif_def ut ur)
  next
    case False
    then show ?thesis by (auto simp: vunif_def ut ur)
  qed
  have bt: "vbinom_type_checks (PInt n) (PInt k) (PInt 1) (PInt s) (PBool a) (PBool d) = Inr ()"
    by (simp add: type_checks_eval)
  have br: "vbinom_range_checks (PInt n) (PInt k) (PInt 1) (PInt s)
       = (if 1 \<le> n \<and> 0 \<le> k \<and> 0 \<le> s \<and> s < numStreams then Inr () else Inl ValueError)"
    using vbinom_range_checks_typed[OF bt] by simp
  have b: "fst (vbinom np sp (PInt n) (PInt k) (PInt 1) (PInt s) (PBool a) (PBool d) st) \<noteq> Inl TypeError"
  proof (cases "1 \<le> n \<and> 0 \<le> k \<and> 0 \<le> s \<and> s < numStreams")
    case True
    then show ?thesis
      using invert_errors[of np _ "PInt n" "PInt s" "PBool a" "PBool d" st TypeError]
      by (auto simp: vbinom_def bt br)
  next
    case False
    then show ?thesis by (auto simp: vbinom_def bt br)
  qed
  from c ut ur u bt br b show ?thesis by blast
qed

end
